theory Spec2Isabelle
  imports Main "HOL-Library.Word"
begin

unbundle bit_operations_syntax

section \<open>Data model\<close>

text \<open>
  The program is \<^verbatim>\<open>src/cpp/pdq_wasm.cpp\<close>: five \<^verbatim>\<open>extern "C"\<close> functions over raw
  pointers. A pointer argument is modelled as an option: \<open>None\<close> is the null pointer,
  \<open>Some m\<close> is a pointer whose cell \<open>p[i]\<close> holds \<open>m i\<close>. A function that writes through a
  pointer returns the memory behind it after the call. Every pointer argument has a
  memory of its own, so the model covers calls whose buffers do not overlap.

  \<^verbatim>\<open>uint8_t\<close> is \<open>8 word\<close>, \<^verbatim>\<open>uint16_t\<close> is \<open>16 word\<close>, \<^verbatim>\<open>int\<close> arguments are \<open>32 word\<close>
  read with \<open>sint\<close>. Return codes are the \<open>int\<close> constants of the source. Where the
  source computes in \<^verbatim>\<open>int\<close> after integer promotion, the model computes in \<open>int\<close> and
  truncates at the assignment with \<open>word_of_int\<close>.
\<close>

type_synonym byte = "8 word"

type_synonym 'a ptr = "(nat \<Rightarrow> 'a) option"

text \<open>Integer promotion of a \<^verbatim>\<open>char\<close>, which is signed on the WebAssembly target.\<close>

definition char_to_int :: "char \<Rightarrow> int" where
  "char_to_int c = sint (of_char c :: 8 word)"

section \<open>Hex text to hash bytes: \<^verbatim>\<open>pdq_hex_to_hash\<close>\<close>

text \<open>
  Lines 255-257 and 259-261: the same conditional expression gives \<^verbatim>\<open>highVal\<close> and
  \<^verbatim>\<open>lowVal\<close>.
\<close>

definition hexVal :: "char \<Rightarrow> int" where
  "hexVal c =
     (if char_to_int CHR ''0'' \<le> char_to_int c \<and> char_to_int c \<le> char_to_int CHR ''9''
        then char_to_int c - char_to_int CHR ''0''
      else if char_to_int CHR ''a'' \<le> char_to_int c \<and> char_to_int c \<le> char_to_int CHR ''f''
        then char_to_int c - char_to_int CHR ''a'' + 10
      else if char_to_int CHR ''A'' \<le> char_to_int c \<and> char_to_int c \<le> char_to_int CHR ''F''
        then char_to_int c - char_to_int CHR ''A'' + 10
      else - 1)"

text \<open>
  Lines 250-270: the loop over the 32 character pairs. It returns inside the loop at the
  first pair with a character that is no hex digit, after the bytes of the pairs before
  it have been stored.
\<close>

function hex_to_hash_loop ::
  "nat \<Rightarrow> (nat \<Rightarrow> char) \<Rightarrow> (nat \<Rightarrow> byte) \<Rightarrow> int \<times> (nat \<Rightarrow> byte)" where
  "hex_to_hash_loop i hexStr hashOut =
     (if i < 32 then
        (let high = hexStr (i * 2);
             low = hexStr (i * 2 + 1);
             highVal = hexVal high;
             lowVal = hexVal low
         in if highVal < 0 \<or> lowVal < 0 then (- 1, hashOut)
            else hex_to_hash_loop (i + 1) hexStr
                   (hashOut(i := word_of_int (push_bit 4 highVal OR lowVal))))
      else (0, hashOut))"
  by pat_completeness auto
termination
  by (relation "measure (\<lambda>(i, hexStr, hashOut). 32 - i)") auto

declare hex_to_hash_loop.simps [simp del]

definition pdq_hex_to_hash :: "char ptr \<Rightarrow> byte ptr \<Rightarrow> int \<times> byte ptr" where
  "pdq_hex_to_hash hexStr hashOut =
     (case (hexStr, hashOut) of
        (Some s, Some out) \<Rightarrow>
          (case hex_to_hash_loop 0 s out of (r, out') \<Rightarrow> (r, Some out'))
      | _ \<Rightarrow> (- 1, hashOut))"

section \<open>Hash bytes to hex text: \<^verbatim>\<open>pdq_hash_to_hex\<close>\<close>

definition hexChars :: string where
  "hexChars = ''0123456789abcdef''"

function hash_to_hex_loop ::
  "nat \<Rightarrow> (nat \<Rightarrow> byte) \<Rightarrow> (nat \<Rightarrow> char) \<Rightarrow> nat \<Rightarrow> char" where
  "hash_to_hex_loop i hashBytes hexOut =
     (if i < 32 then
        hash_to_hex_loop (i + 1) hashBytes
          (hexOut(i * 2 := hexChars ! nat (drop_bit 4 (uint (hashBytes i)) AND 0xF),
                  i * 2 + 1 := hexChars ! nat (uint (hashBytes i) AND 0xF)))
      else hexOut)"
  by pat_completeness auto
termination
  by (relation "measure (\<lambda>(i, hashBytes, hexOut). 32 - i)") auto

declare hash_to_hex_loop.simps [simp del]

text \<open>The function is \<^verbatim>\<open>void\<close>: the result is the memory behind \<^verbatim>\<open>hexOut\<close>.\<close>

definition pdq_hash_to_hex :: "byte ptr \<Rightarrow> char ptr \<Rightarrow> char ptr" where
  "pdq_hash_to_hex hashBytes hexOut =
     (case (hashBytes, hexOut) of
        (Some h, Some out) \<Rightarrow> Some ((hash_to_hex_loop 0 h out)(64 := CHR 0x00))
      | _ \<Rightarrow> hexOut)"

section \<open>Hamming distance: \<^verbatim>\<open>pdq_hamming_distance\<close>\<close>

text \<open>
  Modelled from the spec: the declaration of \<^verbatim>\<open>Hash256\<close> is in the PDQ library header
  \<^verbatim>\<open>pdq/cpp/common/pdqhashtypes.h\<close>, which is not among the sources. The spec's data model
  has it as 16 words of 16 bits each; the source reads and writes them as \<^verbatim>\<open>h.w[i]\<close>.
\<close>

record Hash256 =
  w :: "nat \<Rightarrow> 16 word"

text \<open>
  Modelled from the spec: the default constructor of \<^verbatim>\<open>Hash256\<close>, same header. The value
  does not matter to \<^verbatim>\<open>pdq_hamming_distance\<close>, whose loop assigns every word.
\<close>

definition Hash256_init :: Hash256 where
  "Hash256_init = \<lparr>w = (\<lambda>i. 0)\<rparr>"

text \<open>
  Modelled from the spec: the number of set bits of one 16-bit word, which
  \<^verbatim>\<open>Hash256::hammingDistance\<close> sums ("summing set-bit counts across all 16 words").
\<close>

definition popcount16 :: "16 word \<Rightarrow> nat" where
  "popcount16 x = length (filter (bit x) [0..<16])"

text \<open>
  Modelled from the spec: \<^verbatim>\<open>Hash256::hammingDistance\<close>, same header, is not among the
  sources. The spec, section 4.6: "computed by XOR-ing corresponding words and summing
  set-bit counts across all 16 words".
\<close>

definition hammingDistance :: "Hash256 \<Rightarrow> Hash256 \<Rightarrow> int" where
  "hammingDistance this that =
     int (sum_list (map (\<lambda>i. popcount16 (w this i XOR w that i)) [0..<16]))"

text \<open>Lines 206-209: both byte arrays are packed into 16-bit words, high byte first.\<close>

function bytes_to_words_loop ::
  "nat \<Rightarrow> (nat \<Rightarrow> byte) \<Rightarrow> (nat \<Rightarrow> byte) \<Rightarrow> Hash256 \<Rightarrow> Hash256 \<Rightarrow> Hash256 \<times> Hash256" where
  "bytes_to_words_loop i hash1 hash2 h1 h2 =
     (if i < 16 then
        bytes_to_words_loop (i + 1) hash1 hash2
          (h1\<lparr>w := (w h1)(i := word_of_int
              (push_bit 8 (uint (ucast (hash1 (i * 2)) :: 16 word)) OR uint (hash1 (i * 2 + 1))))\<rparr>)
          (h2\<lparr>w := (w h2)(i := word_of_int
              (push_bit 8 (uint (ucast (hash2 (i * 2)) :: 16 word)) OR uint (hash2 (i * 2 + 1))))\<rparr>)
      else (h1, h2))"
  by pat_completeness auto
termination
  by (relation "measure (\<lambda>(i, hash1, hash2, h1, h2). 16 - i)") auto

declare bytes_to_words_loop.simps [simp del]

text \<open>
  Nothing in the \<^verbatim>\<open>try\<close> block throws in this model, so the \<^verbatim>\<open>catch\<close> branch of
  lines 212-214 has no counterpart.
\<close>

definition pdq_hamming_distance :: "byte ptr \<Rightarrow> byte ptr \<Rightarrow> int" where
  "pdq_hamming_distance hash1 hash2 =
     (case (hash1, hash2) of
        (Some b1, Some b2) \<Rightarrow>
          (case bytes_to_words_loop 0 b1 b2 Hash256_init Hash256_init of
             (h1, h2) \<Rightarrow> hammingDistance h1 h2)
      | _ \<Rightarrow> - 1)"

section \<open>Hashing pixels: \<^verbatim>\<open>pdq_hash_from_rgb\<close> and \<^verbatim>\<open>pdq_hash_from_gray\<close>\<close>

text \<open>
  The pixel pipeline is the PDQ library's and computes in floating point. It is a
  parameter of the model: a record of the library functions the source calls, over an
  abstract type \<open>'f\<close> of floats. A call that throws returns \<open>None\<close>. \<open>new_array lib sz n\<close>
  tells whether \<^verbatim>\<open>new T[n]\<close> with elements of \<open>sz\<close> bytes returns; otherwise it throws.
  The scratch buffers handed to \<^verbatim>\<open>pdqHash256FromFloatLuma\<close> are uninitialised on entry
  and are left out of its arguments.
\<close>

record 'f pdq_library =
  new_array :: "nat \<Rightarrow> 32 word \<Rightarrow> bool"
  fillFloatLumaFromRGB ::
    "byte list \<Rightarrow> byte list \<Rightarrow> byte list \<Rightarrow> 32 word \<Rightarrow> 32 word \<Rightarrow> 32 word \<Rightarrow> 32 word
       \<Rightarrow> 'f list option"
  fillFloatLumaFromGrey ::
    "(nat \<Rightarrow> byte) \<Rightarrow> 32 word \<Rightarrow> 32 word \<Rightarrow> 32 word \<Rightarrow> 32 word \<Rightarrow> 'f list option"
  pdqHash256FromFloatLuma ::
    "'f list \<Rightarrow> 32 word \<Rightarrow> 32 word \<Rightarrow> (Hash256 \<times> 32 word) option"

text \<open>
  Lines 44-85: the \<^verbatim>\<open>try\<close> block of \<^verbatim>\<open>pdq_hash_from_rgb\<close> up to the computed hash and
  quality: six allocations, the split into colour channels, the luma conversion, the copy
  into \<^verbatim>\<open>buffer1\<close> and the hash. \<open>None\<close> when any step throws.
\<close>

definition rgb_try_block ::
  "'f pdq_library \<Rightarrow> (nat \<Rightarrow> byte) \<Rightarrow> 32 word \<Rightarrow> 32 word \<Rightarrow> (Hash256 \<times> 32 word) option" where
  "rgb_try_block lib rgbBuffer width height =
     (if \<not> list_all (\<lambda>sz. new_array lib sz (width * height)) [4, 4, 4, 1, 1, 1] then None
      else
        let pixels = [0..<nat (sint (width * height))];
            rChannel = map (\<lambda>i. rgbBuffer (i * 3 + 0)) pixels;
            gChannel = map (\<lambda>i. rgbBuffer (i * 3 + 1)) pixels;
            bChannel = map (\<lambda>i. rgbBuffer (i * 3 + 2)) pixels
        in case fillFloatLumaFromRGB lib rChannel gChannel bChannel height width width 1 of
             None \<Rightarrow> None
           | Some luma \<Rightarrow>
               let buffer1 = luma
               in pdqHash256FromFloatLuma lib buffer1 height width)"

text \<open>Lines 138-168: the same for \<^verbatim>\<open>pdq_hash_from_gray\<close>, with three allocations.\<close>

definition gray_try_block ::
  "'f pdq_library \<Rightarrow> (nat \<Rightarrow> byte) \<Rightarrow> 32 word \<Rightarrow> 32 word \<Rightarrow> (Hash256 \<times> 32 word) option" where
  "gray_try_block lib grayBuffer width height =
     (if \<not> list_all (\<lambda>sz. new_array lib sz (width * height)) [4, 4, 4] then None
      else
        case fillFloatLumaFromGrey lib grayBuffer height width width 1 of
          None \<Rightarrow> None
        | Some luma \<Rightarrow>
            let buffer1 = luma
            in pdqHash256FromFloatLuma lib buffer1 height width)"

text \<open>Lines 89-92 and 171-174: the 16 words are stored as 32 bytes.\<close>

function store_hash_loop :: "nat \<Rightarrow> Hash256 \<Rightarrow> (nat \<Rightarrow> byte) \<Rightarrow> nat \<Rightarrow> byte" where
  "store_hash_loop i hash hashOut =
     (if i < 16 then
        store_hash_loop (i + 1) hash
          (hashOut(i * 2 := word_of_int (drop_bit 8 (uint (w hash i)) AND 0xFF),
                   i * 2 + 1 := word_of_int (uint (w hash i) AND 0xFF)))
      else hashOut)"
  by pat_completeness auto
termination
  by (relation "measure (\<lambda>(i, hash, hashOut). 16 - i)") auto

declare store_hash_loop.simps [simp del]

text \<open>
  The result is the return code, the memory behind \<^verbatim>\<open>hashOut\<close> and the cell behind
  \<^verbatim>\<open>qualityOut\<close>.
\<close>

definition pdq_hash_from_rgb ::
  "'f pdq_library \<Rightarrow> byte ptr \<Rightarrow> 32 word \<Rightarrow> 32 word \<Rightarrow> byte ptr \<Rightarrow> 32 word option
     \<Rightarrow> int \<times> byte ptr \<times> 32 word option" where
  "pdq_hash_from_rgb lib rgbBuffer width height hashOut qualityOut =
     (case (rgbBuffer, hashOut, qualityOut) of
        (Some rgb, Some out, Some q) \<Rightarrow>
          if sint width \<le> 0 \<or> sint height \<le> 0 then (- 2, hashOut, qualityOut)
          else (case rgb_try_block lib rgb width height of
                  None \<Rightarrow> (- 3, hashOut, qualityOut)
                | Some (hash, quality) \<Rightarrow>
                    (0, Some (store_hash_loop 0 hash out), Some quality))
      | _ \<Rightarrow> (- 1, hashOut, qualityOut))"

definition pdq_hash_from_gray ::
  "'f pdq_library \<Rightarrow> byte ptr \<Rightarrow> 32 word \<Rightarrow> 32 word \<Rightarrow> byte ptr \<Rightarrow> 32 word option
     \<Rightarrow> int \<times> byte ptr \<times> 32 word option" where
  "pdq_hash_from_gray lib grayBuffer width height hashOut qualityOut =
     (case (grayBuffer, hashOut, qualityOut) of
        (Some gray, Some out, Some q) \<Rightarrow>
          if sint width \<le> 0 \<or> sint height \<le> 0 then (- 2, hashOut, qualityOut)
          else (case gray_try_block lib gray width height of
                  None \<Rightarrow> (- 3, hashOut, qualityOut)
                | Some (hash, quality) \<Rightarrow>
                    (0, Some (store_hash_loop 0 hash out), Some quality))
      | _ \<Rightarrow> (- 1, hashOut, qualityOut))"

section \<open>Notions the properties are stated with\<close>

text \<open>A hex digit, as the spec means it: a decimal digit or a letter a-f in either case.\<close>

definition hex_digit :: "char \<Rightarrow> bool" where
  "hex_digit c = (c \<in> set ''0123456789abcdefABCDEF'')"

text \<open>
  The memory behind a pointer to the C string \<open>s\<close>: its characters, the terminator, and
  whatever \<open>rest\<close> lies beyond.
\<close>

definition cstring_at :: "string \<Rightarrow> (nat \<Rightarrow> char) \<Rightarrow> nat \<Rightarrow> char" where
  "cstring_at s rest i =
     (if i < length s then s ! i
      else if i = length s then CHR 0x00
      else rest (i - Suc (length s)))"

text \<open>A memory whose every cell holds \<open>v\<close>.\<close>

definition filled :: "'a \<Rightarrow> nat \<Rightarrow> 'a" where
  "filled v i = v"

text \<open>Both characters of pair \<open>k\<close> are hex digits; the byte the pair stands for.\<close>

definition pair_ok :: "(nat \<Rightarrow> char) \<Rightarrow> nat \<Rightarrow> bool" where
  "pair_ok hexStr k = (hex_digit (hexStr (2 * k)) \<and> hex_digit (hexStr (2 * k + 1)))"

definition decode_pair :: "(nat \<Rightarrow> char) \<Rightarrow> nat \<Rightarrow> byte" where
  "decode_pair hexStr k =
     word_of_int (push_bit 4 (hexVal (hexStr (2 * k))) OR hexVal (hexStr (2 * k + 1)))"

text \<open>
  Word \<open>i\<close> of the hash held in 32 bytes, as lines 207-208 pack it: byte \<open>2i\<close> shifted
  left by 8, or-ed with byte \<open>2i + 1\<close>.
\<close>

definition packed_word :: "(nat \<Rightarrow> byte) \<Rightarrow> nat \<Rightarrow> 16 word" where
  "packed_word b i =
     word_of_int (push_bit 8 (uint (ucast (b (2 * i)) :: 16 word)) OR uint (b (2 * i + 1)))"

text \<open>
  Bit \<open>k\<close> of the 256-bit value held in 32 bytes, in the spec's layout: word \<open>i\<close> holds
  bits \<open>16i\<close> to \<open>16i + 15\<close>, byte \<open>2i\<close> is its high byte and byte \<open>2i + 1\<close> its low byte.
\<close>

definition hash_bit :: "(nat \<Rightarrow> byte) \<Rightarrow> nat \<Rightarrow> bool" where
  "hash_bit h k =
     (if k mod 16 < 8 then bit (h (2 * (k div 16) + 1)) (k mod 16)
      else bit (h (2 * (k div 16))) (k mod 16 - 8))"

text \<open>The number of bit positions at which two 256-bit values differ.\<close>

definition differing_bits :: "(nat \<Rightarrow> byte) \<Rightarrow> (nat \<Rightarrow> byte) \<Rightarrow> nat" where
  "differing_bits h1 h2 = length (filter (\<lambda>k. hash_bit h1 k \<noteq> hash_bit h2 k) [0..<256])"

text \<open>
  A stand-in for the library, for running the model on concrete inputs: allocation
  succeeds when \<open>can_alloc\<close>, the luma of every image is empty, and the hash and quality
  of every image are the given ones.
\<close>

definition fixed_library :: "bool \<Rightarrow> Hash256 \<Rightarrow> 32 word \<Rightarrow> unit pdq_library" where
  "fixed_library can_alloc hash quality =
     \<lparr>new_array = (\<lambda>sz n. can_alloc),
      fillFloatLumaFromRGB = (\<lambda>r g b numRows numCols rowStride colStride. Some []),
      fillFloatLumaFromGrey = (\<lambda>g numRows numCols rowStride colStride. Some []),
      pdqHash256FromFloatLuma = (\<lambda>luma numRows numCols. Some (hash, quality))\<rparr>"

section \<open>The hex digit table\<close>

lemma hexVal_neg_iff: "hexVal c < 0 \<longleftrightarrow> \<not> hex_digit c"
  by (cases c) (auto simp add: hexVal_def hex_digit_def char_to_int_def)

lemma hexVal_hexChars: "n < 16 \<Longrightarrow> hexVal (hexChars ! n) = int n"
proof -
  have "list_all (\<lambda>n. hexVal (hexChars ! n) = int n) [0..<16]"
    by code_simp
  then show "n < 16 \<Longrightarrow> hexVal (hexChars ! n) = int n"
    by (simp add: list_all_iff)
qed

lemma and_15_take_bit: "(x::int) AND 15 = take_bit 4 x"
proof -
  have "(15::int) = mask 4" by (simp add: mask_eq_exp_minus_1)
  then show ?thesis by (simp only: take_bit_eq_mask)
qed

lemma and_255_take_bit: "(x::int) AND 255 = take_bit 8 x"
proof -
  have "(255::int) = mask 8" by (simp add: mask_eq_exp_minus_1)
  then show ?thesis by (simp only: take_bit_eq_mask)
qed

lemma nibble_join:
  "(word_of_int (push_bit 4 (drop_bit 4 (uint b) AND 15) OR (uint b AND 15)) :: byte) = b"
  unfolding and_15_take_bit
  by (rule bit_word_eqI) (auto simp add: bit_simps)

section \<open>The parsing loop\<close>

lemma pair_ok_iff:
  "pair_ok s k \<longleftrightarrow> \<not> (hexVal (s (k * 2)) < 0 \<or> hexVal (s (k * 2 + 1)) < 0)"
  by (simp add: pair_ok_def hexVal_neg_iff mult.commute)

lemma hex_to_hash_loop_done: "\<not> i < 32 \<Longrightarrow> hex_to_hash_loop i s out = (0, out)"
  by (subst hex_to_hash_loop.simps) simp

lemma hex_to_hash_loop_reject:
  "i < 32 \<Longrightarrow> \<not> pair_ok s i \<Longrightarrow> hex_to_hash_loop i s out = (- 1, out)"
  by (subst hex_to_hash_loop.simps) (simp add: pair_ok_iff Let_def)

lemma hex_to_hash_loop_accept:
  "i < 32 \<Longrightarrow> pair_ok s i \<Longrightarrow>
   hex_to_hash_loop i s out = hex_to_hash_loop (Suc i) s (out(i := decode_pair s i))"
  by (subst hex_to_hash_loop.simps)
     (simp add: pair_ok_iff Let_def decode_pair_def mult.commute)

lemma hex_to_hash_loop_ok:
  "(\<And>k. i \<le> k \<Longrightarrow> k < 32 \<Longrightarrow> pair_ok s k) \<Longrightarrow>
   hex_to_hash_loop i s out = (0, \<lambda>j. if i \<le> j \<and> j < 32 then decode_pair s j else out j)"
proof (induction "32 - i" arbitrary: i out)
  case 0
  then have "\<not> i < 32" by simp
  then show ?case by (auto simp add: hex_to_hash_loop_done fun_eq_iff)
next
  case (Suc n)
  then have lt: "i < 32" and n: "n = 32 - Suc i" by simp_all
  have ok: "pair_ok s i" using Suc.prems lt by simp
  have "hex_to_hash_loop (Suc i) s (out(i := decode_pair s i)) =
      (0, \<lambda>j. if Suc i \<le> j \<and> j < 32 then decode_pair s j else (out(i := decode_pair s i)) j)"
    using Suc.hyps(1) [OF n] Suc.prems by simp
  then show ?case
    using lt ok by (auto simp add: hex_to_hash_loop_accept fun_eq_iff)
qed

lemma hex_to_hash_loop_bad:
  "i \<le> k \<Longrightarrow> k < 32 \<Longrightarrow> \<not> pair_ok s k \<Longrightarrow>
   (\<And>k'. i \<le> k' \<Longrightarrow> k' < k \<Longrightarrow> pair_ok s k') \<Longrightarrow>
   hex_to_hash_loop i s out = (- 1, \<lambda>j. if i \<le> j \<and> j < k then decode_pair s j else out j)"
proof (induction "k - i" arbitrary: i out)
  case 0
  then have "i = k" by simp
  then show ?case using 0 by (auto simp add: hex_to_hash_loop_reject fun_eq_iff)
next
  case (Suc n)
  then have lt: "i < k" and n: "n = k - Suc i" by simp_all
  have ok: "pair_ok s i" using Suc.prems lt by simp
  have "hex_to_hash_loop (Suc i) s (out(i := decode_pair s i)) =
      (- 1, \<lambda>j. if Suc i \<le> j \<and> j < k then decode_pair s j else (out(i := decode_pair s i)) j)"
    using Suc.hyps(1) [OF n] Suc.prems lt by simp
  then show ?case
    using lt ok Suc.prems(2) by (auto simp add: hex_to_hash_loop_accept fun_eq_iff)
qed

lemma first_bad_pair:
  assumes "\<not> (\<forall>k<32. pair_ok s k)"
  shows "\<exists>k<32. \<not> pair_ok s k \<and> (\<forall>k'<k. pair_ok s k') \<and>
           hex_to_hash_loop 0 s out = (- 1, \<lambda>j. if j < k then decode_pair s j else out j)"
proof -
  define k where "k = (LEAST k. k < 32 \<and> \<not> pair_ok s k)"
  from assms have ex: "\<exists>k. k < 32 \<and> \<not> pair_ok s k" by blast
  then have k: "k < 32" "\<not> pair_ok s k"
    unfolding k_def by (metis (mono_tags, lifting) LeastI_ex)+
  have least: "pair_ok s k'" if "k' < k" for k'
  proof (rule ccontr)
    assume "\<not> pair_ok s k'"
    with that k(1) have "k' < 32 \<and> \<not> pair_ok s k'" by simp
    then have "k \<le> k'" unfolding k_def by (rule Least_le)
    with that show False by simp
  qed
  have "hex_to_hash_loop 0 s out = (- 1, \<lambda>j. if 0 \<le> j \<and> j < k then decode_pair s j else out j)"
    by (rule hex_to_hash_loop_bad) (use k least in auto)
  with k least show ?thesis by auto
qed

lemma all_pairs_ok:
  assumes "\<forall>k<32. pair_ok s k"
  shows "hex_to_hash_loop 0 s out = (0, \<lambda>j. if j < 32 then decode_pair s j else out j)"
  using hex_to_hash_loop_ok [of 0 s out] assms by simp

lemma cstring_pairs_ok_iff:
  "(\<forall>k<32. pair_ok (cstring_at s rest) k) \<longleftrightarrow> 64 \<le> length s \<and> list_all hex_digit (take 64 s)"
proof
  assume all: "\<forall>k<32. pair_ok (cstring_at s rest) k"
  have digit: "hex_digit (cstring_at s rest i)" if "i < 64" for i
  proof -
    have "i div 2 < 32" using that by simp
    with all have "pair_ok (cstring_at s rest) (i div 2)" by simp
    moreover have "i = 2 * (i div 2) \<or> i = 2 * (i div 2) + 1" by presburger
    ultimately show ?thesis unfolding pair_ok_def by metis
  qed
  have nul: "\<not> hex_digit (CHR 0x00)" by (simp add: hex_digit_def)
  have len: "64 \<le> length s"
  proof (rule ccontr)
    assume "\<not> 64 \<le> length s"
    then have "length s < 64" by simp
    from digit [OF this] nul show False by (simp add: cstring_at_def)
  qed
  moreover have "list_all hex_digit (take 64 s)"
    unfolding list_all_length
  proof (intro allI impI)
    fix n assume "n < length (take 64 s)"
    then have "n < 64" "n < length s" by simp_all
    with digit [of n] show "hex_digit (take 64 s ! n)" by (simp add: cstring_at_def)
  qed
  ultimately show "64 \<le> length s \<and> list_all hex_digit (take 64 s)" ..
next
  assume r: "64 \<le> length s \<and> list_all hex_digit (take 64 s)"
  then have digit: "hex_digit (s ! n)" if "n < 64" for n
    using that by (auto simp add: list_all_length)
  show "\<forall>k<32. pair_ok (cstring_at s rest) k"
  proof (intro allI impI)
    fix k :: nat assume "k < 32"
    then have "2 * k < 64" "2 * k + 1 < 64" by simp_all
    with r digit [of "2 * k"] digit [of "2 * k + 1"]
    show "pair_ok (cstring_at s rest) k" by (simp add: pair_ok_def cstring_at_def)
  qed
qed

section \<open>The rendering loop\<close>

lemma hash_to_hex_loop_done: "\<not> i < 32 \<Longrightarrow> hash_to_hex_loop i h out = out"
  by (subst hash_to_hex_loop.simps) simp

lemma hash_to_hex_loop_step:
  "i < 32 \<Longrightarrow> hash_to_hex_loop i h out =
     hash_to_hex_loop (Suc i) h
       (out(2 * i := hexChars ! nat (drop_bit 4 (uint (h i)) AND 15),
            2 * i + 1 := hexChars ! nat (uint (h i) AND 15)))"
  by (subst hash_to_hex_loop.simps) (simp add: mult.commute)

lemma hash_to_hex_loop_eq:
  "hash_to_hex_loop i h out =
     (\<lambda>j. if 2 * i \<le> j \<and> j < 64
           then hexChars ! nat (if even j then drop_bit 4 (uint (h (j div 2))) AND 15
                                else uint (h (j div 2)) AND 15)
           else out j)"
proof (induction "32 - i" arbitrary: i out)
  case 0
  then have "\<not> i < 32" by simp
  then show ?case by (auto simp add: hash_to_hex_loop_done fun_eq_iff)
next
  case (Suc n)
  then have lt: "i < 32" and n: "n = 32 - Suc i" by simp_all
  show ?case
    unfolding hash_to_hex_loop_step [OF lt] Suc.hyps(1) [OF n] fun_eq_iff
  proof
    fix j
    consider "j = 2 * i" | "j = 2 * i + 1" | "j < 2 * i" | "2 * Suc i \<le> j" by fastforce
    then show "(if 2 * Suc i \<le> j \<and> j < 64
          then hexChars ! nat (if even j then drop_bit 4 (uint (h (j div 2))) AND 15
                               else uint (h (j div 2)) AND 15)
          else (out(2 * i := hexChars ! nat (drop_bit 4 (uint (h i)) AND 15),
                    2 * i + 1 := hexChars ! nat (uint (h i) AND 15))) j) =
         (if 2 * i \<le> j \<and> j < 64
          then hexChars ! nat (if even j then drop_bit 4 (uint (h (j div 2))) AND 15
                               else uint (h (j div 2)) AND 15)
          else out j)"
      using lt by cases auto
  qed
qed

lemma nibble_lt16: "nat ((x::int) AND 15) < 16"
  unfolding and_15_take_bit using take_bit_int_less_exp [of 4 x] by simp

lemma hexVal_nibble: "hexVal (hexChars ! nat ((x::int) AND 15)) = x AND 15"
  by (simp add: hexVal_hexChars [OF nibble_lt16])

lemma hex_digit_hexChars: "n < 16 \<Longrightarrow> hex_digit (hexChars ! n)"
  using hexVal_hexChars [of n] hexVal_neg_iff [of "hexChars ! n"] by auto

lemma to_hex_pairs:
  assumes "k < 32"
  shows "pair_ok ((hash_to_hex_loop 0 h out)(64 := c)) k"
    and "decode_pair ((hash_to_hex_loop 0 h out)(64 := c)) k = h k"
proof -
  from assms have a: "2 * k < 64" "2 * k + 1 < 64" "2 * k \<noteq> 64" "2 * k + 1 \<noteq> 64" by simp_all
  have hi: "((hash_to_hex_loop 0 h out)(64 := c)) (2 * k) =
      hexChars ! nat (drop_bit 4 (uint (h k)) AND 15)"
    using a by (simp add: hash_to_hex_loop_eq)
  have lo: "((hash_to_hex_loop 0 h out)(64 := c)) (2 * k + 1) =
      hexChars ! nat (uint (h k) AND 15)"
    using a by (simp add: hash_to_hex_loop_eq)
  show "pair_ok ((hash_to_hex_loop 0 h out)(64 := c)) k"
    unfolding pair_ok_def hi lo by (simp add: hex_digit_hexChars nibble_lt16)
  show "decode_pair ((hash_to_hex_loop 0 h out)(64 := c)) k = h k"
    unfolding decode_pair_def hi lo hexVal_nibble by (rule nibble_join)
qed

section \<open>Properties of \<^verbatim>\<open>pdq_hex_to_hash\<close>\<close>

text \<open>
  C1, as the spec states it: whenever \<^verbatim>\<open>pdq_hex_to_hash\<close> rejects its input, the output
  buffer is exactly as it was before the call. The code stores each byte inside the loop
  that validates, so a text whose first invalid pair is not the first pair is rejected
  after bytes have been stored. Here the text has 64 characters, one of them (the third)
  no hex digit, and the buffer holds 255 in every byte: the call returns -1 and byte 0
  holds 0.
\<close>

theorem hex_to_hash_partial_write_counterexample:
  "fst (pdq_hex_to_hash
          (Some (cstring_at ''00z0000000000000000000000000000000000000000000000000000000000000''
                   (filled CHR ''x'')))
          (Some (filled 255))) = - 1 \<and>
   the (snd (pdq_hex_to_hash
          (Some (cstring_at ''00z0000000000000000000000000000000000000000000000000000000000000''
                   (filled CHR ''x'')))
          (Some (filled 255)))) 0 \<noteq> filled 255 0"
  by code_simp

text \<open>
  C1, amended to what the code does. With a null pointer nothing is written. When the
  call on non-null pointers returns an error, the code is -1 and there is a first pair
  \<open>k\<close> below 32 that holds a character that is no hex digit; the bytes from \<open>k\<close> on are
  exactly as they were before the call, and the bytes below \<open>k\<close> hold the decoded pairs
  before it. A return of 0 comes only from 32 valid pairs, and then the first 32 bytes are
  the decoded pairs.
\<close>

theorem hex_to_hash_error_keeps_tail:
  "pdq_hex_to_hash None hashOut = (- 1, hashOut) \<and>
   pdq_hex_to_hash hexStr None = (- 1, None) \<and>
   (fst (pdq_hex_to_hash (Some s) (Some out)) \<noteq> 0 \<longrightarrow>
      (\<exists>k<32. \<not> pair_ok s k \<and> (\<forall>k'<k. pair_ok s k') \<and>
         pdq_hex_to_hash (Some s) (Some out) =
           (- 1, Some (\<lambda>j. if j < k then decode_pair s j else out j)))) \<and>
   (fst (pdq_hex_to_hash (Some s) (Some out)) = 0 \<longrightarrow>
      (\<forall>k<32. pair_ok s k) \<and>
      pdq_hex_to_hash (Some s) (Some out) =
        (0, Some (\<lambda>j. if j < 32 then decode_pair s j else out j)))"
proof (intro conjI impI)
  show "pdq_hex_to_hash None hashOut = (- 1, hashOut)"
    by (simp add: pdq_hex_to_hash_def)
  show "pdq_hex_to_hash hexStr None = (- 1, None)"
    by (simp add: pdq_hex_to_hash_def split: option.splits)
next
  assume err: "fst (pdq_hex_to_hash (Some s) (Some out)) \<noteq> 0"
  have "\<not> (\<forall>k<32. pair_ok s k)"
  proof
    assume "\<forall>k<32. pair_ok s k"
    from all_pairs_ok [OF this, of out] err show False
      by (simp add: pdq_hex_to_hash_def)
  qed
  from first_bad_pair [OF this, of out]
  show "\<exists>k<32. \<not> pair_ok s k \<and> (\<forall>k'<k. pair_ok s k') \<and>
         pdq_hex_to_hash (Some s) (Some out) =
           (- 1, Some (\<lambda>j. if j < k then decode_pair s j else out j))"
    by (auto simp add: pdq_hex_to_hash_def)
next
  assume ok: "fst (pdq_hex_to_hash (Some s) (Some out)) = 0"
  have all: "\<forall>k<32. pair_ok s k"
  proof (rule ccontr)
    assume "\<not> (\<forall>k<32. pair_ok s k)"
    from first_bad_pair [OF this, of out] ok show False
      by (auto simp add: pdq_hex_to_hash_def)
  qed
  then show "\<forall>k<32. pair_ok s k" .
  from all_pairs_ok [OF all, of out]
  show "pdq_hex_to_hash (Some s) (Some out) =
        (0, Some (\<lambda>j. if j < 32 then decode_pair s j else out j))"
    by (simp add: pdq_hex_to_hash_def)
qed

theorem hex_to_hash_error_keeps_tail_witness:
  "fst (pdq_hex_to_hash (Some (cstring_at ''12g4'' (filled CHR ''x''))) (Some (filled 255))) \<noteq> 0 \<and>
   (\<exists>k<32. \<not> pair_ok (cstring_at ''12g4'' (filled CHR ''x'')) k \<and>
      pdq_hex_to_hash (Some (cstring_at ''12g4'' (filled CHR ''x''))) (Some (filled 255)) =
        (- 1, Some (\<lambda>j. if j < k then decode_pair (cstring_at ''12g4'' (filled CHR ''x'')) j
                          else filled 255 j))) \<and>
   fst (pdq_hex_to_hash
          (Some (cstring_at ''0123456789abcdefABCDEF0123456789abcdefABCDEF0123456789abcdefABCD''
                   (filled CHR ''x'')))
          (Some (filled 255))) = 0 \<and>
   list_all (pair_ok (cstring_at ''0123456789abcdefABCDEF0123456789abcdefABCDEF0123456789abcdefABCD''
                   (filled CHR ''x''))) [0..<32]"
proof -
  let ?bad = "cstring_at ''12g4'' (filled CHR ''x'')"
  let ?good = "cstring_at ''0123456789abcdefABCDEF0123456789abcdefABCDEF0123456789abcdefABCD''
                   (filled CHR ''x'')"
  have e: "fst (pdq_hex_to_hash (Some ?bad) (Some (filled 255))) \<noteq> 0"
    by code_simp
  have s: "fst (pdq_hex_to_hash (Some ?good) (Some (filled 255))) = 0"
    by code_simp
  note t1 = hex_to_hash_error_keeps_tail [of None None ?bad "filled 255"]
  note t2 = hex_to_hash_error_keeps_tail [of None None ?good "filled 255"]
  from t1 e have "\<exists>k<32. \<not> pair_ok ?bad k \<and>
      pdq_hex_to_hash (Some ?bad) (Some (filled 255)) =
        (- 1, Some (\<lambda>j. if j < k then decode_pair ?bad j else filled 255 j))"
    by blast
  moreover from t2 s have "\<forall>k<32. pair_ok ?good k" by blast
  then have "list_all (pair_ok ?good) [0..<32]" by (simp add: list_all_iff)
  ultimately show ?thesis using e s by blast
qed

text \<open>
  C2, as the spec states it: the call fails if and only if the length of the text is not
  64 or some character of it is no hex digit. The code reads 64 characters and never
  looks for the terminator, so a longer text that starts with 64 hex digits is accepted:
  here a text of 65 zeros.
\<close>

theorem hex_to_hash_long_text_counterexample:
  "fst (pdq_hex_to_hash
          (Some (cstring_at ''00000000000000000000000000000000000000000000000000000000000000000''
                   (filled CHR ''x'')))
          (Some (filled 0))) = 0 \<and>
   length ''00000000000000000000000000000000000000000000000000000000000000000'' \<noteq> 64"
  by code_simp

text \<open>
  C2, amended to what the code does: on non-null pointers the call on the C string \<open>s\<close>
  returns 0 when \<open>s\<close> has at least 64 characters and its first 64 characters are hex
  digits, upper or lower case, and -1 otherwise, whatever lies beyond the terminator. So it
  fails if and only if the text is shorter than 64 characters or one of its first 64
  characters is no hex digit, and it succeeds for every text of exactly 64 hex digits.
\<close>

theorem hex_to_hash_return_code:
  "fst (pdq_hex_to_hash (Some (cstring_at s rest)) (Some out)) =
     (if 64 \<le> length s \<and> list_all hex_digit (take 64 s) then 0 else - 1)"
proof (cases "\<forall>k<32. pair_ok (cstring_at s rest) k")
  case True
  from all_pairs_ok [OF this, of out] True show ?thesis
    by (simp add: pdq_hex_to_hash_def cstring_pairs_ok_iff)
next
  case False
  from first_bad_pair [OF this, of out] False show ?thesis
    by (auto simp add: pdq_hex_to_hash_def cstring_pairs_ok_iff)
qed

text \<open>
  C10: the result depends only on the first 64 characters. When the first 64 cells
  behind \<^verbatim>\<open>hexStr\<close> are hex digits the call returns 0 and stores the 32 decoded pairs, and
  any other memory with the same first 64 cells gives the same result, whatever follows
  them.
\<close>

theorem hex_to_hash_reads_64_chars:
  assumes "list_all hex_digit (map m [0..<64])"
    and "map m' [0..<64] = map m [0..<64]"
  shows "pdq_hex_to_hash (Some m') (Some out) = pdq_hex_to_hash (Some m) (Some out) \<and>
         pdq_hex_to_hash (Some m) (Some out) =
           (0, Some (\<lambda>j. if j < 32 then decode_pair m j else out j))"
proof -
  have same: "m' i = m i" if "i < 64" for i
    using assms(2) that by (simp add: list_eq_iff_nth_eq)
  have digit: "hex_digit (m i)" if "i < 64" for i
    using assms(1) that by (simp add: list_all_iff)
  have ok: "\<forall>k<32. pair_ok m k"
    by (simp add: pair_ok_def digit)
  have ok': "\<forall>k<32. pair_ok m' k"
    by (simp add: pair_ok_def digit same)
  have dec: "decode_pair m' k = decode_pair m k" if "k < 32" for k
    using that by (simp add: decode_pair_def same)
  have "hex_to_hash_loop 0 m' out = hex_to_hash_loop 0 m out"
    unfolding all_pairs_ok [OF ok] all_pairs_ok [OF ok']
    by (auto simp add: dec fun_eq_iff)
  then show ?thesis
    using all_pairs_ok [OF ok, of out] by (simp add: pdq_hex_to_hash_def)
qed

theorem hex_to_hash_reads_64_chars_witness:
  "list_all hex_digit
     (map (cstring_at ''0123456789abcdefABCDEF0123456789abcdefABCDEF0123456789abcdefABCD''
             (filled CHR ''x'')) [0..<64]) \<and>
   map (cstring_at ''0123456789abcdefABCDEF0123456789abcdefABCDEF0123456789abcdefABCDzz''
          (filled CHR ''y'')) [0..<64] =
   map (cstring_at ''0123456789abcdefABCDEF0123456789abcdefABCDEF0123456789abcdefABCD''
          (filled CHR ''x'')) [0..<64] \<and>
   pdq_hex_to_hash
     (Some (cstring_at ''0123456789abcdefABCDEF0123456789abcdefABCDEF0123456789abcdefABCDzz''
              (filled CHR ''y'')))
     (Some (filled 0)) =
   pdq_hex_to_hash
     (Some (cstring_at ''0123456789abcdefABCDEF0123456789abcdefABCDEF0123456789abcdefABCD''
              (filled CHR ''x'')))
     (Some (filled 0)) \<and>
   fst (pdq_hex_to_hash
     (Some (cstring_at ''0123456789abcdefABCDEF0123456789abcdefABCDEF0123456789abcdefABCD''
              (filled CHR ''x'')))
     (Some (filled 0))) = 0"
proof -
  let ?m = "cstring_at ''0123456789abcdefABCDEF0123456789abcdefABCDEF0123456789abcdefABCD''
             (filled CHR ''x'')"
  let ?m' = "cstring_at ''0123456789abcdefABCDEF0123456789abcdefABCDEF0123456789abcdefABCDzz''
          (filled CHR ''y'')"
  have a: "list_all hex_digit (map ?m [0..<64])" by code_simp
  have b: "map ?m' [0..<64] = map ?m [0..<64]" by code_simp
  from hex_to_hash_reads_64_chars [OF a b, of "filled 0"] a b show ?thesis by simp
qed

section \<open>Round trip\<close>

text \<open>
  C4: for every 32 bytes \<open>h\<close>, rendering them with \<^verbatim>\<open>pdq_hash_to_hex\<close> and parsing the
  text back with \<^verbatim>\<open>pdq_hex_to_hash\<close> returns 0 and stores exactly the 32 bytes of \<open>h\<close>,
  whatever the two output buffers held before.
\<close>

theorem hex_round_trip:
  "pdq_hex_to_hash (pdq_hash_to_hex (Some h) (Some hexOut)) (Some hashOut) =
     (0, Some (\<lambda>j. if j < 32 then h j else hashOut j))"
proof -
  let ?hx = "(hash_to_hex_loop 0 h hexOut)(64 := CHR 0x00)"
  have "\<forall>k<32. pair_ok ?hx k" by (simp add: to_hex_pairs(1))
  from all_pairs_ok [OF this, of hashOut]
  have "hex_to_hash_loop 0 ?hx hashOut = (0, \<lambda>j. if j < 32 then h j else hashOut j)"
    by (simp add: to_hex_pairs(2) cong: if_cong)
  then show ?thesis
    by (simp add: pdq_hash_to_hex_def pdq_hex_to_hash_def)
qed

section \<open>Packing bytes into words and counting bits\<close>

lemma bytes_to_words_loop_done: "\<not> i < 16 \<Longrightarrow> bytes_to_words_loop i b1 b2 h1 h2 = (h1, h2)"
  by (subst bytes_to_words_loop.simps) simp

lemma bytes_to_words_loop_step:
  "i < 16 \<Longrightarrow> bytes_to_words_loop i b1 b2 h1 h2 =
     bytes_to_words_loop (Suc i) b1 b2
       (h1\<lparr>w := (w h1)(i := packed_word b1 i)\<rparr>) (h2\<lparr>w := (w h2)(i := packed_word b2 i)\<rparr>)"
  by (subst bytes_to_words_loop.simps) (simp add: packed_word_def mult.commute)

lemma bytes_to_words_loop_eq:
  "bytes_to_words_loop i b1 b2 h1 h2 =
     (h1\<lparr>w := (\<lambda>j. if i \<le> j \<and> j < 16 then packed_word b1 j else w h1 j)\<rparr>,
      h2\<lparr>w := (\<lambda>j. if i \<le> j \<and> j < 16 then packed_word b2 j else w h2 j)\<rparr>)"
proof (induction "16 - i" arbitrary: i h1 h2)
  case 0
  then have ge: "\<not> i < 16" by simp
  then have "(\<lambda>j. if i \<le> j \<and> j < 16 then f j else g j) = g" for f g :: "nat \<Rightarrow> 16 word"
    by (auto simp add: fun_eq_iff)
  then show ?case by (simp add: bytes_to_words_loop_done [OF ge])
next
  case (Suc n)
  then have lt: "i < 16" and n: "n = 16 - Suc i" by simp_all
  show ?case
    unfolding bytes_to_words_loop_step [OF lt] Suc.hyps(1) [OF n]
    using lt by (auto simp add: fun_eq_iff)
qed

lemma pdq_hamming_distance_words:
  "pdq_hamming_distance (Some b1) (Some b2) =
     int (sum_list (map (\<lambda>i. popcount16 (packed_word b1 i XOR packed_word b2 i)) [0..<16]))"
proof -
  have eq: "sum_list (map (\<lambda>i. popcount16
               ((if i < 16 then packed_word b1 i else x i) XOR
                (if i < 16 then packed_word b2 i else y i))) [0..<16]) =
        sum_list (map (\<lambda>i. popcount16 (packed_word b1 i XOR packed_word b2 i)) [0..<16])"
    for x y :: "nat \<Rightarrow> 16 word"
    by (rule arg_cong [where f = sum_list], rule map_cong) simp_all
  show ?thesis
    unfolding pdq_hamming_distance_def bytes_to_words_loop_eq hammingDistance_def
    by (simp add: eq)
qed

lemma bit_packed_word:
  "bit (packed_word b i) n \<longleftrightarrow>
     (if n < 8 then bit (b (2 * i + 1)) n else n < 16 \<and> bit (b (2 * i)) (n - 8))"
  unfolding packed_word_def
  by (auto simp add: bit_simps dest: bit_imp_le_length)

lemma hash_bit_packed_word:
  "n < 16 \<Longrightarrow> hash_bit h (16 * i + n) = bit (packed_word h i) n"
  by (simp add: hash_bit_def bit_packed_word)

lemma length_filter_concat:
  "length (filter P (concat xss)) = sum_list (map (\<lambda>xs. length (filter P xs)) xss)"
  by (induction xss) simp_all

lemma positions_256:
  "[0..<256] = concat (map (\<lambda>i. map (\<lambda>n. 16 * i + n) [0..<16]) [0..<16])"
  by code_simp

lemma differing_bits_words:
  "differing_bits h1 h2 =
     sum_list (map (\<lambda>i. popcount16 (packed_word h1 i XOR packed_word h2 i)) [0..<16])"
proof -
  have word: "length (filter (\<lambda>k. hash_bit h1 k \<noteq> hash_bit h2 k) (map (\<lambda>n. 16 * i + n) [0..<16])) =
      popcount16 (packed_word h1 i XOR packed_word h2 i)" for i
  proof -
    have "filter ((\<lambda>k. hash_bit h1 k \<noteq> hash_bit h2 k) \<circ> (\<lambda>n. 16 * i + n)) [0..<16] =
          filter (bit (packed_word h1 i XOR packed_word h2 i)) [0..<16]"
      by (rule filter_cong) (simp_all add: hash_bit_packed_word bit_xor_iff)
    then show ?thesis
      by (simp add: filter_map popcount16_def)
  qed
  show ?thesis
    unfolding differing_bits_def positions_256 length_filter_concat
    by (simp only: map_map comp_def word)
qed

lemma differing_bits_le: "differing_bits h1 h2 \<le> 256"
proof -
  have "length (filter (\<lambda>k. hash_bit h1 k \<noteq> hash_bit h2 k) [0..<256]) \<le> length [0..<256]"
    by (rule length_filter_le)
  then show ?thesis by (simp add: differing_bits_def)
qed

lemma pdq_hamming_distance_bits:
  "pdq_hamming_distance (Some h1) (Some h2) = int (differing_bits h1 h2)"
  by (simp add: pdq_hamming_distance_words differing_bits_words)

lemma filter_triangle:
  "length (filter (\<lambda>k. a k \<noteq> c k) xs) \<le>
     length (filter (\<lambda>k. a k \<noteq> b k) xs) + length (filter (\<lambda>k. b k \<noteq> c k) xs)"
  by (induction xs) auto

section \<open>Storing words as bytes and rendering digits\<close>

lemma store_hash_loop_done: "\<not> i < 16 \<Longrightarrow> store_hash_loop i hash out = out"
  by (subst store_hash_loop.simps) simp

lemma store_hash_loop_step:
  "i < 16 \<Longrightarrow> store_hash_loop i hash out =
     store_hash_loop (Suc i) hash
       (out(2 * i := word_of_int (drop_bit 8 (uint (w hash i)) AND 255),
            2 * i + 1 := word_of_int (uint (w hash i) AND 255)))"
  by (subst store_hash_loop.simps) (simp add: mult.commute)

lemma store_hash_loop_eq:
  "store_hash_loop i hash out =
     (\<lambda>j. if 2 * i \<le> j \<and> j < 32
           then (if even j then word_of_int (drop_bit 8 (uint (w hash (j div 2))) AND 255)
                 else word_of_int (uint (w hash (j div 2)) AND 255))
           else out j)"
proof (induction "16 - i" arbitrary: i out)
  case 0
  then have "\<not> i < 16" by simp
  then show ?case by (auto simp add: store_hash_loop_done fun_eq_iff)
next
  case (Suc n)
  then have lt: "i < 16" and n: "n = 16 - Suc i" by simp_all
  show ?case
    unfolding store_hash_loop_step [OF lt] Suc.hyps(1) [OF n] fun_eq_iff
  proof
    fix j
    consider "j = 2 * i" | "j = 2 * i + 1" | "j < 2 * i" | "2 * Suc i \<le> j" by fastforce
    then show "(if 2 * Suc i \<le> j \<and> j < 32
          then (if even j then word_of_int (drop_bit 8 (uint (w hash (j div 2))) AND 255)
                else word_of_int (uint (w hash (j div 2)) AND 255))
          else (out(2 * i := word_of_int (drop_bit 8 (uint (w hash i)) AND 255),
                    2 * i + 1 := word_of_int (uint (w hash i) AND 255))) j) =
         (if 2 * i \<le> j \<and> j < 32
          then (if even j then word_of_int (drop_bit 8 (uint (w hash (j div 2))) AND 255)
                else word_of_int (uint (w hash (j div 2)) AND 255))
          else out j)"
      using lt by cases auto
  qed
qed

lemma unat_high_byte:
  "unat (word_of_int (drop_bit 8 (uint x) AND 255) :: byte) = unat x div 256" for x :: "16 word"
proof -
  have "uint x < 65536" using uint_bounded [of x] by simp
  then have lt: "uint x div 256 < 256" by simp
  have ge: "0 \<le> uint x div 256" by (simp add: pos_imp_zdiv_nonneg_iff)
  have "drop_bit 8 (uint x) AND 255 = uint x div 256"
    unfolding and_255_take_bit drop_bit_eq_div using lt ge
    by (simp add: take_bit_int_eq_self)
  moreover have "unat (word_of_int (uint x div 256) :: byte) = nat (uint x div 256)"
    using lt ge by (simp add: unsigned_of_int take_bit_int_eq_self)
  moreover have "nat (uint x div 256) = unat x div 256"
    by (simp add: nat_div_distrib)
  ultimately show ?thesis by simp
qed

lemma unat_low_byte:
  "unat (word_of_int (uint x AND 255) :: byte) = unat x mod 256" for x :: "16 word"
proof -
  have "uint x AND 255 = uint x mod 256"
    unfolding and_255_take_bit by (simp add: take_bit_eq_mod)
  moreover have "unat (word_of_int (uint x mod 256) :: byte) = nat (uint x mod 256)"
    by (simp add: unsigned_of_int take_bit_int_eq_self)
  moreover have "nat (uint x mod 256) = unat x mod 256"
    by (simp add: nat_mod_distrib)
  ultimately show ?thesis by simp
qed

lemma high_digit: "nat (drop_bit 4 (uint b) AND 15) = unat b div 16" for b :: byte
proof -
  have "uint b < 256" using uint_bounded [of b] by simp
  then have lt: "uint b div 16 < 16" by simp
  have ge: "0 \<le> uint b div 16" by (simp add: pos_imp_zdiv_nonneg_iff)
  have "drop_bit 4 (uint b) AND 15 = uint b div 16"
    unfolding and_15_take_bit drop_bit_eq_div using lt ge
    by (simp add: take_bit_int_eq_self)
  moreover have "nat (uint b div 16) = unat b div 16"
    by (simp add: nat_div_distrib)
  ultimately show ?thesis by simp
qed

lemma low_digit: "nat (uint b AND 15) = unat b mod 16" for b :: byte
proof -
  have "uint b AND 15 = uint b mod 16"
    unfolding and_15_take_bit by (simp add: take_bit_eq_mod)
  moreover have "nat (uint b mod 16) = unat b mod 16"
    by (simp add: nat_mod_distrib)
  ultimately show ?thesis by simp
qed


lemma stored_bytes:
  assumes "i < 16"
  shows "unat (store_hash_loop 0 hash out (2 * i)) = unat (w hash i) div 256"
    and "unat (store_hash_loop 0 hash out (2 * i + 1)) = unat (w hash i) mod 256"
  using assms by (simp_all add: store_hash_loop_eq unat_high_byte unat_low_byte)

lemma stored_low_byte_Suc:
  "i < 16 \<Longrightarrow> unat (store_hash_loop 0 hash out (Suc (2 * i))) = unat (w hash i) mod 256"
  using stored_bytes(2) [of i hash out] by simp

lemma stored_rest: "32 \<le> j \<Longrightarrow> store_hash_loop 0 hash out j = out j"
  by (simp add: store_hash_loop_eq)

lemma hex_text:
  assumes "i < 32"
  shows "((hash_to_hex_loop 0 h out)(64 := c)) (2 * i) = hexChars ! (unat (h i) div 16)"
    and "((hash_to_hex_loop 0 h out)(64 := c)) (2 * i + 1) = hexChars ! (unat (h i) mod 16)"
  using assms by (simp_all add: hash_to_hex_loop_eq high_digit low_digit)

lemma hex_text_Suc:
  "i < 32 \<Longrightarrow>
   ((hash_to_hex_loop 0 h out)(64 := c)) (Suc (2 * i)) = hexChars ! (unat (h i) mod 16)"
  using hex_text(2) [of i h out c] by simp

lemma hexChars_lower: "n < 16 \<Longrightarrow> hexChars ! n \<in> set ''0123456789abcdef''"
  unfolding hexChars_def by (rule nth_mem) simp

lemma hex_text_lower:
  assumes "j < 64"
  shows "((hash_to_hex_loop 0 h out)(64 := c)) j \<in> set ''0123456789abcdef''"
proof -
  have "nat (if even j then drop_bit 4 (uint (h (j div 2))) AND 15
             else uint (h (j div 2)) AND 15) < 16"
    by (simp add: nibble_lt16)
  from hexChars_lower [OF this] assms show ?thesis
    by (simp add: hash_to_hex_loop_eq)
qed

section \<open>Serialization format\<close>

text \<open>
  C3: the format contract. When \<^verbatim>\<open>pdq_hash_from_rgb\<close> or \<^verbatim>\<open>pdq_hash_from_gray\<close> succeeds
  with the library's hash \<open>hash\<close>, word \<open>i\<close> of it is stored big-endian for every \<open>i\<close>
  below 16: byte \<open>2i\<close> of the output is the high byte of the word and byte \<open>2i + 1\<close> its
  low byte, and the bytes from 32 on are untouched. \<^verbatim>\<open>pdq_hash_to_hex\<close> renders byte \<open>i\<close> as
  the two characters \<open>2i\<close> and \<open>2i + 1\<close>, the high digit first, every one of the 64
  characters a lower-case hex digit, and stores the terminator as character 64, leaving
  what follows untouched.
\<close>

theorem serialization_format:
  "(0 < sint width \<and> 0 < sint height \<and> rgb_try_block lib rgb width height = Some (hash, quality) \<longrightarrow>
      (\<exists>out'. pdq_hash_from_rgb lib (Some rgb) width height (Some out) (Some q) =
                 (0, Some out', Some quality) \<and>
         (\<forall>i<16. unat (out' (2 * i)) = unat (w hash i) div 256 \<and>
                  unat (out' (2 * i + 1)) = unat (w hash i) mod 256) \<and>
         (\<forall>j\<ge>32. out' j = out j))) \<and>
   (0 < sint width \<and> 0 < sint height \<and> gray_try_block lib gray width height = Some (hash, quality) \<longrightarrow>
      (\<exists>out'. pdq_hash_from_gray lib (Some gray) width height (Some out) (Some q) =
                 (0, Some out', Some quality) \<and>
         (\<forall>i<16. unat (out' (2 * i)) = unat (w hash i) div 256 \<and>
                  unat (out' (2 * i + 1)) = unat (w hash i) mod 256) \<and>
         (\<forall>j\<ge>32. out' j = out j))) \<and>
   (\<exists>hex. pdq_hash_to_hex (Some h) (Some hexOut) = Some hex \<and>
      (\<forall>i<32. hex (2 * i) = hexChars ! (unat (h i) div 16) \<and>
               hex (2 * i + 1) = hexChars ! (unat (h i) mod 16)) \<and>
      (\<forall>j<64. hex j \<in> set ''0123456789abcdef'') \<and>
      hex 64 = CHR 0x00 \<and>
      (\<forall>j>64. hex j = hexOut j))"
proof (intro conjI impI)
  assume "0 < sint width \<and> 0 < sint height \<and> rgb_try_block lib rgb width height = Some (hash, quality)"
  then have "pdq_hash_from_rgb lib (Some rgb) width height (Some out) (Some q) =
      (0, Some (store_hash_loop 0 hash out), Some quality)"
    by (simp add: pdq_hash_from_rgb_def)
  then show "\<exists>out'. pdq_hash_from_rgb lib (Some rgb) width height (Some out) (Some q) =
                 (0, Some out', Some quality) \<and>
         (\<forall>i<16. unat (out' (2 * i)) = unat (w hash i) div 256 \<and>
                  unat (out' (2 * i + 1)) = unat (w hash i) mod 256) \<and>
         (\<forall>j\<ge>32. out' j = out j)"
    by (simp add: stored_bytes stored_low_byte_Suc stored_rest)
next
  assume "0 < sint width \<and> 0 < sint height \<and> gray_try_block lib gray width height = Some (hash, quality)"
  then have "pdq_hash_from_gray lib (Some gray) width height (Some out) (Some q) =
      (0, Some (store_hash_loop 0 hash out), Some quality)"
    by (simp add: pdq_hash_from_gray_def)
  then show "\<exists>out'. pdq_hash_from_gray lib (Some gray) width height (Some out) (Some q) =
                 (0, Some out', Some quality) \<and>
         (\<forall>i<16. unat (out' (2 * i)) = unat (w hash i) div 256 \<and>
                  unat (out' (2 * i + 1)) = unat (w hash i) mod 256) \<and>
         (\<forall>j\<ge>32. out' j = out j)"
    by (simp add: stored_bytes stored_low_byte_Suc stored_rest)
next
  have "pdq_hash_to_hex (Some h) (Some hexOut) =
      Some ((hash_to_hex_loop 0 h hexOut)(64 := CHR 0x00))"
    by (simp add: pdq_hash_to_hex_def)
  moreover have "\<forall>j>64. ((hash_to_hex_loop 0 h hexOut)(64 := CHR 0x00)) j = hexOut j"
    by (simp add: hash_to_hex_loop_eq)
  ultimately show "\<exists>hex. pdq_hash_to_hex (Some h) (Some hexOut) = Some hex \<and>
      (\<forall>i<32. hex (2 * i) = hexChars ! (unat (h i) div 16) \<and>
               hex (2 * i + 1) = hexChars ! (unat (h i) mod 16)) \<and>
      (\<forall>j<64. hex j \<in> set ''0123456789abcdef'') \<and>
      hex 64 = CHR 0x00 \<and>
      (\<forall>j>64. hex j = hexOut j)"
    using hex_text [of _ h hexOut "CHR 0x00"] hex_text_Suc [of _ h hexOut "CHR 0x00"]
      hex_text_lower [of _ h hexOut "CHR 0x00"]
    by simp
qed

theorem serialization_format_witness:
  "0 < sint (2 :: 32 word) \<and> 0 < sint (3 :: 32 word) \<and>
   rgb_try_block (fixed_library True \<lparr>w = filled 0xABCD\<rparr> 42) (filled 7) 2 3 =
     Some (\<lparr>w = filled 0xABCD\<rparr>, 42) \<and>
   gray_try_block (fixed_library True \<lparr>w = filled 0xABCD\<rparr> 42) (filled 7) 2 3 =
     Some (\<lparr>w = filled 0xABCD\<rparr>, 42) \<and>
   (\<exists>out'. pdq_hash_from_rgb (fixed_library True \<lparr>w = filled 0xABCD\<rparr> 42)
              (Some (filled 7)) 2 3 (Some (filled 0)) (Some 0) = (0, Some out', Some 42) \<and>
      unat (out' 0) = 0xAB \<and> unat (out' 1) = 0xCD) \<and>
   (\<exists>out'. pdq_hash_from_gray (fixed_library True \<lparr>w = filled 0xABCD\<rparr> 42)
              (Some (filled 7)) 2 3 (Some (filled 0)) (Some 0) = (0, Some out', Some 42) \<and>
      unat (out' 0) = 0xAB \<and> unat (out' 1) = 0xCD) \<and>
   (\<exists>hex. pdq_hash_to_hex (Some (filled 0xA7)) (Some (filled CHR ''x'')) = Some hex \<and>
      hex 0 = CHR ''a'' \<and> hex 1 = CHR ''7'' \<and> hex 64 = CHR 0x00)"
proof -
  let ?H = "\<lparr>w = filled 0xABCD\<rparr>"
  let ?L = "fixed_library True ?H 42"
  have dims: "0 < sint (2 :: 32 word) \<and> 0 < sint (3 :: 32 word)" by simp
  have rgb: "rgb_try_block ?L (filled 7) 2 3 = Some (?H, 42)"
    by (simp add: rgb_try_block_def fixed_library_def)
  have gray: "gray_try_block ?L (filled 7) 2 3 = Some (?H, 42)"
    by (simp add: gray_try_block_def fixed_library_def)
  note t = serialization_format [where width = 2 and height = 3 and lib = ?L
      and rgb = "filled 7" and gray = "filled 7" and hash = ?H and quality = 42
      and out = "filled 0" and q = 0 and h = "filled 0xA7" and hexOut = "filled CHR ''x''"]
  from t dims rgb obtain o1 where o1:
    "pdq_hash_from_rgb ?L (Some (filled 7)) 2 3 (Some (filled 0)) (Some 0) = (0, Some o1, Some 42)"
    "\<forall>i<16. unat (o1 (2 * i)) = unat (w ?H i) div 256 \<and>
             unat (o1 (2 * i + 1)) = unat (w ?H i) mod 256"
    by blast
  from o1(2) [rule_format, of 0] have "unat (o1 (2 * 0)) = unat (w ?H 0) div 256 \<and>
      unat (o1 (2 * 0 + 1)) = unat (w ?H 0) mod 256"
    by simp
  then have b1: "unat (o1 0) = 0xAB \<and> unat (o1 1) = 0xCD"
    by (simp add: filled_def)
  from t dims gray obtain o2 where o2:
    "pdq_hash_from_gray ?L (Some (filled 7)) 2 3 (Some (filled 0)) (Some 0) = (0, Some o2, Some 42)"
    "\<forall>i<16. unat (o2 (2 * i)) = unat (w ?H i) div 256 \<and>
             unat (o2 (2 * i + 1)) = unat (w ?H i) mod 256"
    by blast
  from o2(2) [rule_format, of 0] have "unat (o2 (2 * 0)) = unat (w ?H 0) div 256 \<and>
      unat (o2 (2 * 0 + 1)) = unat (w ?H 0) mod 256"
    by simp
  then have b2: "unat (o2 0) = 0xAB \<and> unat (o2 1) = 0xCD"
    by (simp add: filled_def)
  from t obtain hx where hx:
    "pdq_hash_to_hex (Some (filled 0xA7)) (Some (filled CHR ''x'')) = Some hx"
    "\<forall>i<32. hx (2 * i) = hexChars ! (unat (filled 0xA7 i :: byte) div 16) \<and>
             hx (2 * i + 1) = hexChars ! (unat (filled 0xA7 i :: byte) mod 16)"
    "hx 64 = CHR 0x00"
    by blast
  from hx(2) [rule_format, of 0] have "hx (2 * 0) = hexChars ! (unat (filled 0xA7 0 :: byte) div 16) \<and>
             hx (2 * 0 + 1) = hexChars ! (unat (filled 0xA7 0 :: byte) mod 16)"
    by simp
  then have b3: "hx 0 = CHR ''a'' \<and> hx 1 = CHR ''7''"
    by (simp add: filled_def hexChars_def)
  from dims rgb gray o1(1) b1 o2(1) b2 hx(1) b3 hx(3) show ?thesis by blast
qed

section \<open>Error signalling of the hashing functions\<close>

text \<open>
  C5: whenever \<^verbatim>\<open>pdq_hash_from_rgb\<close> or \<^verbatim>\<open>pdq_hash_from_gray\<close> returns an error, be it for
  a null pointer, for a width or height that is not positive, or because the computation
  threw, the memory behind \<^verbatim>\<open>hashOut\<close> and the cell behind \<^verbatim>\<open>qualityOut\<close> are as they were
  before the call.
\<close>

theorem hash_error_leaves_outputs:
  "(fst (pdq_hash_from_rgb lib rgbBuffer width height hashOut qualityOut) \<noteq> 0 \<longrightarrow>
      snd (pdq_hash_from_rgb lib rgbBuffer width height hashOut qualityOut) =
        (hashOut, qualityOut)) \<and>
   (fst (pdq_hash_from_gray lib grayBuffer width height hashOut qualityOut) \<noteq> 0 \<longrightarrow>
      snd (pdq_hash_from_gray lib grayBuffer width height hashOut qualityOut) =
        (hashOut, qualityOut))"
  by (auto simp add: pdq_hash_from_rgb_def pdq_hash_from_gray_def split: option.splits)

theorem hash_error_leaves_outputs_witness:
  "fst (pdq_hash_from_rgb (fixed_library False \<lparr>w = filled 0xABCD\<rparr> 42)
          (Some (filled 7)) 2 3 (Some (filled 9)) (Some 5)) \<noteq> 0 \<and>
   snd (pdq_hash_from_rgb (fixed_library False \<lparr>w = filled 0xABCD\<rparr> 42)
          (Some (filled 7)) 2 3 (Some (filled 9)) (Some 5)) = (Some (filled 9), Some 5) \<and>
   fst (pdq_hash_from_gray (fixed_library True \<lparr>w = filled 0xABCD\<rparr> 42)
          (Some (filled 7)) 0 3 (Some (filled 9)) (Some 5)) \<noteq> 0 \<and>
   snd (pdq_hash_from_gray (fixed_library True \<lparr>w = filled 0xABCD\<rparr> 42)
          (Some (filled 7)) 0 3 (Some (filled 9)) (Some 5)) = (Some (filled 9), Some 5)"
proof -
  let ?H = "\<lparr>w = filled 0xABCD\<rparr>"
  have e1: "fst (pdq_hash_from_rgb (fixed_library False ?H 42)
          (Some (filled 7)) 2 3 (Some (filled 9)) (Some 5)) \<noteq> 0"
    by (simp add: pdq_hash_from_rgb_def rgb_try_block_def fixed_library_def)
  have e2: "fst (pdq_hash_from_gray (fixed_library True ?H 42)
          (Some (filled 7)) 0 3 (Some (filled 9)) (Some 5)) \<noteq> 0"
    by (simp add: pdq_hash_from_gray_def)
  from hash_error_leaves_outputs [where lib = "fixed_library False ?H 42"
      and rgbBuffer = "Some (filled 7)" and grayBuffer = None and width = 2 and height = 3
      and hashOut = "Some (filled 9)" and qualityOut = "Some 5"] e1
  have "snd (pdq_hash_from_rgb (fixed_library False ?H 42)
          (Some (filled 7)) 2 3 (Some (filled 9)) (Some 5)) = (Some (filled 9), Some 5)"
    by blast
  moreover
  from hash_error_leaves_outputs [where lib = "fixed_library True ?H 42"
      and rgbBuffer = None and grayBuffer = "Some (filled 7)" and width = 0 and height = 3
      and hashOut = "Some (filled 9)" and qualityOut = "Some 5"] e2
  have "snd (pdq_hash_from_gray (fixed_library True ?H 42)
          (Some (filled 7)) 0 3 (Some (filled 9)) (Some 5)) = (Some (filled 9), Some 5)"
    by blast
  ultimately show ?thesis using e1 e2 by blast
qed

text \<open>
  C6: the return code of both functions tells the failure classes apart. It is -1 when a
  pointer is null; otherwise -2 when the width or the height is not positive; otherwise
  -3 when the computation threw; and 0 otherwise, that is exactly on success.
\<close>

theorem hash_return_codes:
  "fst (pdq_hash_from_rgb lib rgbBuffer width height hashOut qualityOut) =
     (if rgbBuffer = None \<or> hashOut = None \<or> qualityOut = None then - 1
      else if sint width \<le> 0 \<or> sint height \<le> 0 then - 2
      else if rgb_try_block lib (the rgbBuffer) width height = None then - 3
      else 0) \<and>
   fst (pdq_hash_from_gray lib grayBuffer width height hashOut qualityOut) =
     (if grayBuffer = None \<or> hashOut = None \<or> qualityOut = None then - 1
      else if sint width \<le> 0 \<or> sint height \<le> 0 then - 2
      else if gray_try_block lib (the grayBuffer) width height = None then - 3
      else 0)"
  by (auto simp add: pdq_hash_from_rgb_def pdq_hash_from_gray_def split: option.splits)

theorem hash_return_codes_witness:
  "fst (pdq_hash_from_rgb (fixed_library True \<lparr>w = filled 0xABCD\<rparr> 42)
          (Some (filled 7)) 2 3 None (Some 5)) = - 1 \<and>
   fst (pdq_hash_from_gray (fixed_library True \<lparr>w = filled 0xABCD\<rparr> 42)
          None 2 3 (Some (filled 9)) (Some 5)) = - 1 \<and>
   fst (pdq_hash_from_rgb (fixed_library True \<lparr>w = filled 0xABCD\<rparr> 42)
          (Some (filled 7)) 2 (- 3) (Some (filled 9)) (Some 5)) = - 2 \<and>
   fst (pdq_hash_from_gray (fixed_library True \<lparr>w = filled 0xABCD\<rparr> 42)
          (Some (filled 7)) 0 3 (Some (filled 9)) (Some 5)) = - 2 \<and>
   fst (pdq_hash_from_rgb (fixed_library False \<lparr>w = filled 0xABCD\<rparr> 42)
          (Some (filled 7)) 2 3 (Some (filled 9)) (Some 5)) = - 3 \<and>
   fst (pdq_hash_from_gray (fixed_library False \<lparr>w = filled 0xABCD\<rparr> 42)
          (Some (filled 7)) 2 3 (Some (filled 9)) (Some 5)) = - 3 \<and>
   fst (pdq_hash_from_rgb (fixed_library True \<lparr>w = filled 0xABCD\<rparr> 42)
          (Some (filled 7)) 2 3 (Some (filled 9)) (Some 5)) = 0 \<and>
   fst (pdq_hash_from_gray (fixed_library True \<lparr>w = filled 0xABCD\<rparr> 42)
          (Some (filled 7)) 2 3 (Some (filled 9)) (Some 5)) = 0"
proof -
  let ?H = "\<lparr>w = filled 0xABCD\<rparr>"
  have ok: "rgb_try_block (fixed_library True ?H 42) (filled 7) 2 3 \<noteq> None"
    "gray_try_block (fixed_library True ?H 42) (filled 7) 2 3 \<noteq> None"
    by (simp_all add: rgb_try_block_def gray_try_block_def fixed_library_def)
  have thrown: "rgb_try_block (fixed_library False ?H 42) (filled 7) 2 3 = None"
    "gray_try_block (fixed_library False ?H 42) (filled 7) 2 3 = None"
    by (simp_all add: rgb_try_block_def gray_try_block_def fixed_library_def)
  note null = hash_return_codes [where lib = "fixed_library True ?H 42"
      and rgbBuffer = "Some (filled 7)" and grayBuffer = None and width = 2 and height = 3
      and hashOut = None and qualityOut = "Some 5"]
    hash_return_codes [where lib = "fixed_library True ?H 42"
      and rgbBuffer = None and grayBuffer = None and width = 2 and height = 3
      and hashOut = "Some (filled 9)" and qualityOut = "Some 5"]
  note dims = hash_return_codes [where lib = "fixed_library True ?H 42"
      and rgbBuffer = "Some (filled 7)" and grayBuffer = "Some (filled 7)"
      and width = 2 and height = "- 3"
      and hashOut = "Some (filled 9)" and qualityOut = "Some 5"]
    hash_return_codes [where lib = "fixed_library True ?H 42"
      and rgbBuffer = "Some (filled 7)" and grayBuffer = "Some (filled 7)"
      and width = 0 and height = 3
      and hashOut = "Some (filled 9)" and qualityOut = "Some 5"]
  note internal = hash_return_codes [where lib = "fixed_library False ?H 42"
      and rgbBuffer = "Some (filled 7)" and grayBuffer = "Some (filled 7)"
      and width = 2 and height = 3
      and hashOut = "Some (filled 9)" and qualityOut = "Some 5"]
  note success = hash_return_codes [where lib = "fixed_library True ?H 42"
      and rgbBuffer = "Some (filled 7)" and grayBuffer = "Some (filled 7)"
      and width = 2 and height = 3
      and hashOut = "Some (filled 9)" and qualityOut = "Some 5"]
  from null dims internal success ok thrown show ?thesis by simp
qed

section \<open>Hamming distance\<close>

text \<open>
  C7: for non-null hashes, \<^verbatim>\<open>pdq_hamming_distance\<close> returns the number of bit positions
  at which the two 256-bit values differ. It is the sum, over the 16 words, of the number
  of set bits of the XOR of the corresponding words, and it lies between 0 and 256.
\<close>

theorem hamming_distance_counts_differing_bits:
  "pdq_hamming_distance (Some h1) (Some h2) = int (differing_bits h1 h2) \<and>
   pdq_hamming_distance (Some h1) (Some h2) =
     int (sum_list (map (\<lambda>i. popcount16 (packed_word h1 i XOR packed_word h2 i)) [0..<16])) \<and>
   0 \<le> pdq_hamming_distance (Some h1) (Some h2) \<and>
   pdq_hamming_distance (Some h1) (Some h2) \<le> 256"
  using differing_bits_le [of h1 h2]
  by (simp add: pdq_hamming_distance_bits differing_bits_words)

text \<open>
  C8: the Hamming distance is symmetric: for non-null hashes, swapping the arguments of
  \<^verbatim>\<open>pdq_hamming_distance\<close> does not change the result.
\<close>

theorem hamming_distance_symmetric:
  "pdq_hamming_distance (Some h1) (Some h2) = pdq_hamming_distance (Some h2) (Some h1)"
  by (simp add: pdq_hamming_distance_words xor.commute)

text \<open>
  C9: the triangle inequality: for non-null hashes, the distance from \<open>h1\<close> to \<open>h3\<close> is at
  most the distance from \<open>h1\<close> to \<open>h2\<close> plus the distance from \<open>h2\<close> to \<open>h3\<close>.
\<close>

theorem hamming_distance_triangle:
  "pdq_hamming_distance (Some h1) (Some h3) \<le>
     pdq_hamming_distance (Some h1) (Some h2) + pdq_hamming_distance (Some h2) (Some h3)"
  using filter_triangle [of "hash_bit h1" "hash_bit h3" "[0..<256]" "hash_bit h2"]
  by (simp add: pdq_hamming_distance_bits differing_bits_def)

end
